theory Spec2Isabelle
  imports Main "HOL-Library.Word"
begin

section \<open>Spyglass lenses: the viewer registry and tail-line extraction\<close>

text \<open>
  A shallow embedding of \<^verbatim>\<open>prow/spyglass/lenses/lenses.go\<close>. Go's \<^verbatim>\<open>[]byte\<close> and
  \<^verbatim>\<open>string\<close> are both lists of 8-bit characters; \<^verbatim>\<open>int64\<close> values are integers
  with the two's-complement wrap-around written out at every arithmetic operation; the
  package-level map \<^verbatim>\<open>lensReg\<close> and the logger are passed as explicit state.
\<close>

subsection \<open>Errors\<close>

text \<open>
  Go compares errors by identity, so the package's sentinel values and \<^verbatim>\<open>io.EOF\<close> are
  constructors of their own; \<^verbatim>\<open>errors.New\<close> and \<^verbatim>\<open>fmt.Errorf\<close> build fresh errors that
  carry a message.
\<close>

datatype error =
    EOF
  | ErrGzipOffsetRead
  | ErrInvalidLensName
  | ErrFileTooLarge
  | ErrContextUnsupported
  | New string
  | Errorf string

text \<open>The method \<^verbatim>\<open>Error()\<close>, which the verb \<^verbatim>\<open>%v\<close> prints.\<close>

fun Error :: "error \<Rightarrow> string" where
  "Error EOF = ''EOF''"
| "Error ErrGzipOffsetRead = ''offset read on gzipped files unsupported''"
| "Error ErrInvalidLensName = ''invalid lens name''"
| "Error ErrFileTooLarge = ''file size over specified limit''"
| "Error ErrContextUnsupported = ''artifact does not support context operations''"
| "Error (New msg) = msg"
| "Error (Errorf msg) = msg"

subsection \<open>Artifacts and lenses\<close>

type_synonym byte = char

text \<open>
  The interface \<^verbatim>\<open>Artifact\<close>, restricted to the two methods this file calls.
  \<^verbatim>\<open>ReadAt(p, off)\<close> takes the buffer and returns it as the call left it, with the
  number of bytes read and the error (\<^verbatim>\<open>nil\<close> is \<open>None\<close>); \<^verbatim>\<open>Size()\<close> returns the
  error or the size. An artifact is read-only while a call holds it, so what a method
  returns depends on its arguments only.
\<close>

record Artifact =
  ReadAt :: "byte list \<Rightarrow> int \<Rightarrow> byte list \<times> int \<times> error option"
  Size :: "error + int"

text \<open>\<^verbatim>\<open>Priority\<close> is a \<^verbatim>\<open>uint\<close>: an unsigned machine word, 64 bits wide on the
  usual targets.\<close>

record LensConfig =
  Name :: string
  Title :: string
  Priority :: "64 word"
  HideTitle :: bool

record Lens =
  Config :: LensConfig
  Header :: "Artifact list \<Rightarrow> string \<Rightarrow> string"
  Body :: "Artifact list \<Rightarrow> string \<Rightarrow> string \<Rightarrow> string"
  Callback :: "Artifact list \<Rightarrow> string \<Rightarrow> string \<Rightarrow> string"

subsection \<open>The registry\<close>

text \<open>
  The process-wide state the registry functions touch: the map \<^verbatim>\<open>lensReg\<close> and the lines
  written through \<^verbatim>\<open>logrus.Infof\<close>, oldest first.
\<close>

record registry =
  lensReg :: "string \<rightharpoonup> Lens"
  logged :: "string list"

definition RegisterLens :: "Lens \<Rightarrow> registry \<Rightarrow> error option \<times> registry" where
  "RegisterLens lens st =
     (let config = Config lens in
      if lensReg st (Name config) \<noteq> None
      then (Some (Errorf (''viewer already registered with name '' @ Name config)), st)
      else if Title config = ''''
      then (Some (New ''empty title field in view metadata''), st)
      else if Priority config < 0
      then (Some (New ''priority must be >=0''), st)
      else (None,
            st\<lparr>lensReg := (lensReg st)(Name config \<mapsto> lens),
               logged := logged st @
                 [''Spyglass registered viewer '' @ Name config @ '' with title '' @
                  Title config @ ''.'']\<rparr>))"

definition GetLens :: "string \<Rightarrow> registry \<Rightarrow> error + Lens" where
  "GetLens name st =
     (case lensReg st name of
        None \<Rightarrow> Inl ErrInvalidLensName
      | Some lens \<Rightarrow> Inr lens)"

definition UnregisterLens :: "string \<Rightarrow> registry \<Rightarrow> registry" where
  "UnregisterLens viewerName st =
     st\<lparr>lensReg := (lensReg st)(viewerName := None),
        logged := logged st @ [''Spyglass unregistered viewer '' @ viewerName @ ''.'']\<rparr>"

subsection \<open>Tail-line extraction\<close>

text \<open>Arithmetic on \<^verbatim>\<open>int64\<close>: the result of every operation wraps into
  \<open>{- 2 ^ 63 ..< 2 ^ 63}\<close>.\<close>

definition int64 :: "int \<Rightarrow> int" where
  "int64 x = (x + 2 ^ 63) mod 2 ^ 64 - 2 ^ 63"

abbreviation NUL :: byte where "NUL \<equiv> CHR 0x00"
abbreviation LF :: byte where "LF \<equiv> CHR 0x0A"
abbreviation CR :: byte where "CR \<equiv> CHR 0x0D"

text \<open>\<^verbatim>\<open>bytes.Trim(s, cutset)\<close> for a cutset of one-byte characters: the leading and the
  trailing bytes of the cutset are sliced off.\<close>

definition bytes_Trim :: "byte list \<Rightarrow> byte list \<Rightarrow> byte list" where
  "bytes_Trim s cutset =
     rev (dropWhile (\<lambda>b. b \<in> set cutset) (rev (dropWhile (\<lambda>b. b \<in> set cutset) s)))"

text \<open>\<^verbatim>\<open>bytes.Count(s, sep)\<close> for a separator of one byte.\<close>

definition bytes_Count :: "byte list \<Rightarrow> byte \<Rightarrow> nat" where
  "bytes_Count s sep = length (filter (\<lambda>b. b = sep) s)"

text \<open>
  The tokens of a \<^verbatim>\<open>bufio.Scanner\<close> over a reader of \<open>data\<close> with the split function
  \<^verbatim>\<open>bufio.ScanLines\<close>, as the loop \<^verbatim>\<open>for scanner.Scan() { ... scanner.Text() ... }\<close>
  collects them. A line ends at a newline; one carriage return before the newline is
  dropped; a last line without a newline is a token when it is not empty. The scanner's
  buffer holds at most \<^verbatim>\<open>MaxScanTokenSize\<close> bytes: at a line with that many bytes before
  its end \<^verbatim>\<open>Scan\<close> stops with \<^verbatim>\<open>ErrTooLong\<close> and returns false, which ends the loop (the
  code never looks at \<^verbatim>\<open>scanner.Err()\<close>).
\<close>

definition MaxScanTokenSize :: nat where
  "MaxScanTokenSize = 64 * 1024"

definition dropCR :: "byte list \<Rightarrow> byte list" where
  "dropCR data = (if data \<noteq> [] \<and> last data = CR then butlast data else data)"

function ScanLines :: "byte list \<Rightarrow> string list" where
  "ScanLines data =
     (if data = [] then []
      else let line = takeWhile (\<lambda>b. b \<noteq> LF) data;
               rest = dropWhile (\<lambda>b. b \<noteq> LF) data
           in if MaxScanTokenSize \<le> length line then []
              else dropCR line # (if rest = [] then [] else ScanLines (tl rest)))"
  by pat_completeness auto
termination
proof (relation "measure length")
  show "wf (measure length)" by simp
next
  fix data :: "byte list" and line rest :: "byte list"
  assume "data \<noteq> []" and r: "rest = dropWhile (\<lambda>b. b \<noteq> LF) data" and "rest \<noteq> []"
  have "length (tl rest) < length rest" using \<open>rest \<noteq> []\<close> by (cases rest) simp_all
  also have "length rest \<le> length data" unfolding r by (rule length_dropWhile_le)
  finally show "(tl rest, data) \<in> measure length" by simp
qed

declare ScanLines.simps [simp del]

text \<open>The calls made on the artifact, in order: \<open>ReadAt_call len off\<close> is a call of
  \<^verbatim>\<open>ReadAt\<close> with a buffer of \<open>len\<close> bytes at offset \<open>off\<close>.\<close>

datatype call = Size_call | ReadAt_call nat int

text \<open>How a call ends: it returns a value, it returns \<^verbatim>\<open>(nil, err)\<close>, or it panics
  (\<^verbatim>\<open>make\<close> with a negative length, a slice bound out of range).\<close>

datatype 'a result = Return 'a | Fail error | Panic

text \<open>The local variables of \<^verbatim>\<open>LastNLinesChunked\<close> that live across iterations.\<close>

record scan_state =
  toRead :: int
  chunks :: int
  contents :: "byte list"
  linesInContents :: int
  offset :: int
  lastOffset :: int
  lastRead :: int

text \<open>
  The loop \<^verbatim>\<open>for linesInContents < n && offset != 0\<close>. It returns the accumulated
  contents and the calls made so far; a loop that never ends has the value \<open>None\<close>.
  The allocation \<^verbatim>\<open>make([]byte, toRead)\<close> panics on a negative length (running out of
  memory on a huge one is not modelled).
\<close>

partial_function (option) readLoop ::
  "Artifact \<Rightarrow> int \<Rightarrow> int \<Rightarrow> scan_state \<Rightarrow> call list \<Rightarrow> (byte list result \<times> call list) option"
where
  "readLoop a n chunkSize s cs =
     (if linesInContents s < n \<and> offset s \<noteq> 0 then
        let offset1 = int64 (lastOffset s - lastRead s);
            toRead1 = (if offset1 < 0 then int64 (int64 (offset1 + chunkSize) + 1) else toRead s);
            offset2 = (if offset1 < 0 then 0 else offset1)
        in if toRead1 < 0 then Some (Panic, cs)
           else
             (case ReadAt a (replicate (nat toRead1) NUL) offset2 of
                (bytesRead, numBytesRead, err) \<Rightarrow>
                  let cs1 = cs @ [ReadAt_call (nat toRead1) offset2] in
                  if err \<noteq> None \<and> err \<noteq> Some EOF
                  then Some (Fail (Errorf (''error reading artifact: '' @ Error (the err))), cs1)
                  else
                    let bytesRead1 = bytes_Trim bytesRead [NUL] in
                    readLoop a n chunkSize
                      \<lparr>toRead = toRead1,
                       chunks = int64 (chunks s + 1),
                       contents = bytesRead1 @ contents s,
                       linesInContents =
                         int64 (linesInContents s + int64 (int (bytes_Count bytesRead1 LF))),
                       offset = offset2,
                       lastOffset = offset2,
                       lastRead = int64 numBytesRead\<rparr>
                      cs1)
      else Some (Return (contents s), cs))"

declare readLoop.simps [code]

definition LastNLinesChunked ::
  "Artifact \<Rightarrow> int \<Rightarrow> int \<Rightarrow> (string list result \<times> call list) option"
where
  "LastNLinesChunked a n chunkSize =
     (case Size a of
        Inl err \<Rightarrow>
          Some (Fail (Errorf (''error getting artifact size: '' @ Error err)), [Size_call])
      | Inr artifactSize \<Rightarrow>
          (let offset0 = int64 (artifactSize - int64 (1 * chunkSize)) in
           case readLoop a n chunkSize
                  \<lparr>toRead = int64 (chunkSize + 1), chunks = 1, contents = [],
                   linesInContents = 0, offset = offset0, lastOffset = offset0,
                   lastRead = 0\<rparr>
                  [Size_call] of
             None \<Rightarrow> None
           | Some (Fail err, cs) \<Rightarrow> Some (Fail err, cs)
           | Some (Panic, cs) \<Rightarrow> Some (Panic, cs)
           | Some (Return contents1, cs) \<Rightarrow>
               (let lines = ScanLines contents1;
                    l = int64 (int (length lines))
                in if l < n then Some (Return lines, cs)
                   else let i = int64 (l - n)
                        in if i < 0 \<or> l < i then Some (Panic, cs)
                           else Some (Return (drop (nat i) lines), cs))))"

definition LastNLines :: "Artifact \<Rightarrow> int \<Rightarrow> (string list result \<times> call list) option" where
  "LastNLines a n = LastNLinesChunked a n (int64 (int64 (300 * n) + 1))"

text \<open>
  Modelled from the spec: the implementations of \<^verbatim>\<open>Artifact\<close> are not part of the
  source file. This one holds its content in memory: \<^verbatim>\<open>ReadAt\<close> fills the buffer with
  the bytes from the offset on, and a read that the end of the content cuts short
  reports the end-of-data condition \<open>EOF\<close> with the bytes it did read; \<^verbatim>\<open>Size\<close> is the
  length of the content.
\<close>

definition contentArtifact :: "byte list \<Rightarrow> Artifact" where
  "contentArtifact content =
     \<lparr>ReadAt = (\<lambda>p off.
        if off < 0 then (p, 0, Some (New ''negative offset''))
        else if int (length content) \<le> off then (p, 0, Some EOF)
        else let data = take (length p) (drop (nat off) content)
             in (data @ drop (length data) p, int (length data),
                 if length data < length p then Some EOF else None)),
      Size = Inr (int (length content))\<rparr>"

subsection \<open>Artifacts and registries to run the code on\<close>

text \<open>
  Modelled from the spec: an artifact whose every \<^verbatim>\<open>ReadAt\<close> fails with the error
  given, as an implementation that cannot seek fails every call with
  \<open>ErrGzipOffsetRead\<close>; its \<^verbatim>\<open>Size()\<close> returns the result given.
\<close>

definition failingArtifact :: "error + int \<Rightarrow> error \<Rightarrow> Artifact" where
  "failingArtifact sz err = \<lparr>ReadAt = (\<lambda>p off. (p, 0, Some err)), Size = sz\<rparr>"

text \<open>The artifact that reads as \<open>a\<close> does but never signals the end of data: where
  \<open>a\<close> returns \<open>EOF\<close> it returns \<^verbatim>\<open>nil\<close>, with the same bytes and the same count.\<close>

definition ignoringEOF :: "Artifact \<Rightarrow> Artifact" where
  "ignoringEOF a =
     a\<lparr>ReadAt := \<lambda>p off. case ReadAt a p off of
                      (p', k, err) \<Rightarrow> (p', k, if err = Some EOF then None else err)\<rparr>"

text \<open>A lens with the name and title given, and the registry before any registration.\<close>

definition exampleLens :: "string \<Rightarrow> string \<Rightarrow> Lens" where
  "exampleLens name title =
     \<lparr>Config = \<lparr>Name = name, Title = title, Priority = 0, HideTitle = False\<rparr>,
      Header = (\<lambda>artifacts resourceDir. title),
      Body = (\<lambda>artifacts resourceDir data. data),
      Callback = (\<lambda>artifacts resourceDir data. data)\<rparr>"

definition emptyRegistry :: registry where
  "emptyRegistry = \<lparr>lensReg = Map.empty, logged = []\<rparr>"

subsection \<open>The specification's full scan\<close>

text \<open>
  The reference the specification compares tail-line extraction with: the whole content
  split on the newline, a trailing segment without a newline counting as a line, and
  of these lines the last \<open>n\<close>.
\<close>

fun splitLines :: "byte list \<Rightarrow> byte list \<Rightarrow> string list" where
  "splitLines line [] = (if line = [] then [] else [line])"
| "splitLines line (b # bs) =
     (if b = LF then line # splitLines [] bs else splitLines (line @ [b]) bs)"

definition fullScanLastN :: "byte list \<Rightarrow> nat \<Rightarrow> string list" where
  "fullScanLastN content n =
     (let lines = splitLines [] content in drop (length lines - n) lines)"

subsection \<open>One iteration of the loop\<close>

text \<open>The offset and the buffer length of the \<^verbatim>\<open>ReadAt\<close> call that an iteration started in
  state \<open>s\<close> makes: the values of \<^verbatim>\<open>offset\<close> and \<^verbatim>\<open>toRead\<close> after the clamp at the
  start of the artifact.\<close>

definition readOffset :: "scan_state \<Rightarrow> int" where
  "readOffset s =
     (let offset1 = int64 (lastOffset s - lastRead s) in if offset1 < 0 then 0 else offset1)"

definition readLength :: "int \<Rightarrow> scan_state \<Rightarrow> int" where
  "readLength chunkSize s =
     (let offset1 = int64 (lastOffset s - lastRead s)
      in if offset1 < 0 then int64 (int64 (offset1 + chunkSize) + 1) else toRead s)"

text \<open>A list of calls is quiet when each of its \<^verbatim>\<open>ReadAt\<close> calls returned \<^verbatim>\<open>nil\<close> or
  \<open>EOF\<close> as its error.\<close>

definition quiet :: "Artifact \<Rightarrow> call list \<Rightarrow> bool" where
  "quiet a cs =
     list_all
       (\<lambda>c. case c of
              Size_call \<Rightarrow> True
            | ReadAt_call len off \<Rightarrow>
                (case ReadAt a (replicate len NUL) off of
                   (p, k, err) \<Rightarrow> err = None \<or> err = Some EOF))
       cs"

section \<open>Arithmetic and the loop, step by step\<close>

lemma int64_small [simp]:
  "- 9223372036854775808 \<le> x \<Longrightarrow> x < 9223372036854775808 \<Longrightarrow> int64 x = x"
  by (simp add: int64_def)

lemma int64_self: "int64 (c - int64 c) = 0"
  by (simp add: int64_def mod_simps)

lemma ScanLines_Nil [simp]: "ScanLines [] = []"
  by (simp add: ScanLines.simps)

lemmas run_simps =
  LastNLinesChunked_def LastNLines_def contentArtifact_def failingArtifact_def
  readLoop.simps ScanLines.simps Let_def bytes_Trim_def bytes_Count_def dropCR_def
  MaxScanTokenSize_def

text \<open>The loop is not entered when enough lines are counted or the offset is 0.\<close>

lemma readLoop_done:
  "\<not> (linesInContents s < n \<and> offset s \<noteq> 0) \<Longrightarrow>
     readLoop a n chunkSize s cs = Some (Return (contents s), cs)"
  by (subst readLoop.simps) auto

text \<open>An iteration whose read fails with an error other than \<open>EOF\<close> ends the loop.\<close>

lemma readLoop_read_fails:
  assumes "linesInContents s < n" "offset s \<noteq> 0" "0 \<le> readLength chunkSize s"
    and "ReadAt a (replicate (nat (readLength chunkSize s)) NUL) (readOffset s) = (p, k, Some e)"
    and "e \<noteq> EOF"
  shows "readLoop a n chunkSize s cs =
    Some (Fail (Errorf (''error reading artifact: '' @ Error e)),
          cs @ [ReadAt_call (nat (readLength chunkSize s)) (readOffset s)])"
  using assms by (subst readLoop.simps) (simp add: Let_def readLength_def readOffset_def)

text \<open>An iteration whose read returns \<^verbatim>\<open>nil\<close> or \<open>EOF\<close> goes on from the next state.\<close>

lemma readLoop_read_succeeds:
  assumes "linesInContents s < n" "offset s \<noteq> 0" "0 \<le> readLength chunkSize s"
    and "ReadAt a (replicate (nat (readLength chunkSize s)) NUL) (readOffset s) = (p, k, err)"
    and "err = None \<or> err = Some EOF"
  shows "readLoop a n chunkSize s cs =
    readLoop a n chunkSize
      \<lparr>toRead = readLength chunkSize s, chunks = int64 (chunks s + 1),
       contents = bytes_Trim p [NUL] @ contents s,
       linesInContents =
         int64 (linesInContents s + int64 (int (bytes_Count (bytes_Trim p [NUL]) LF))),
       offset = readOffset s, lastOffset = readOffset s, lastRead = int64 k\<rparr>
      (cs @ [ReadAt_call (nat (readLength chunkSize s)) (readOffset s)])"
  using assms by (subst readLoop.simps) (auto simp add: Let_def readLength_def readOffset_def)

text \<open>What the function returns when the size is known and the loop is not entered.\<close>

lemma LastNLinesChunked_no_read:
  assumes "Size a = Inr artifactSize"
    and "n \<le> 0 \<or> int64 (artifactSize - int64 chunkSize) = 0"
    and "0 \<le> n"
  shows "LastNLinesChunked a n chunkSize = Some (Return [], [Size_call])"
  using assms by (auto simp add: LastNLinesChunked_def readLoop_done Let_def)

text \<open>The result of the function, read off the result of its loop.\<close>

lemma LastNLinesChunked_loop_result:
  assumes "LastNLinesChunked a n chunkSize = Some (r, trace)" and "Size a = Inr artifactSize"
  shows "\<exists>r0. readLoop a n chunkSize
            \<lparr>toRead = int64 (chunkSize + 1), chunks = 1, contents = [],
             linesInContents = 0, offset = int64 (artifactSize - int64 chunkSize),
             lastOffset = int64 (artifactSize - int64 chunkSize), lastRead = 0\<rparr>
            [Size_call] = Some (r0, trace) \<and>
          (\<forall>err. r0 = Fail err \<longrightarrow> r = Fail err)"
proof -
  define s0 where "s0 = \<lparr>toRead = int64 (chunkSize + 1), chunks = 1, contents = [],
        linesInContents = 0, offset = int64 (artifactSize - int64 chunkSize),
        lastOffset = int64 (artifactSize - int64 chunkSize), lastRead = 0\<rparr>"
  show ?thesis
  proof (cases "readLoop a n chunkSize s0 [Size_call]")
    case None
    with assms show ?thesis by (simp add: LastNLinesChunked_def Let_def s0_def)
  next
    case (Some y)
    obtain r0 cs where y: "y = (r0, cs)" by (cases y)
    show ?thesis
    proof (cases r0)
      case (Return contents1)
      with assms Some y have "cs = trace"
        by (simp add: LastNLinesChunked_def Let_def s0_def split: if_splits)
      with Some y Return show ?thesis by (simp add: s0_def)
    next
      case (Fail err)
      with assms Some y show ?thesis by (simp add: LastNLinesChunked_def Let_def s0_def)
    next
      case Panic
      with assms Some y show ?thesis by (simp add: LastNLinesChunked_def Let_def s0_def)
    qed
  qed
qed

text \<open>When every \<^verbatim>\<open>ReadAt\<close> fails with one error other than \<open>EOF\<close>, the size is known and
  is not the chunk size, the first iteration ends the call.\<close>

lemma LastNLinesChunked_first_read_fails:
  assumes always: "\<forall>p off. snd (snd (ReadAt a p off)) = Some e" and e: "e \<noteq> EOF"
      and sz: "Size a = Inr artifactSize" "0 \<le> artifactSize" "artifactSize < 2 ^ 63 - 1"
      and n: "1 \<le> n" and c: "1 \<le> chunkSize" "chunkSize < 2 ^ 63 - 1"
      and ne: "artifactSize \<noteq> chunkSize"
  shows "LastNLinesChunked a n chunkSize =
     Some (Fail (Errorf (''error reading artifact: '' @ Error e)),
           [Size_call,
            if artifactSize < chunkSize then ReadAt_call (nat (artifactSize + 1)) 0
            else ReadAt_call (nat (chunkSize + 1)) (artifactSize - chunkSize)])"
proof -
  have r: "\<exists>p k. ReadAt a b off = (p, k, Some e)" for b off
  proof (cases "ReadAt a b off")
    case (fields p k err)
    with always have "err = Some e" by (metis snd_conv)
    with fields show ?thesis by simp
  qed
  define s0 where "s0 = \<lparr>toRead = chunkSize + 1, chunks = 1, contents = [],
       linesInContents = 0, offset = artifactSize - chunkSize,
       lastOffset = artifactSize - chunkSize, lastRead = 0\<rparr>"
  have len: "readLength chunkSize s0 =
      (if artifactSize < chunkSize then artifactSize + 1 else chunkSize + 1)"
    using sz c by (simp add: readLength_def s0_def)
  have off: "readOffset s0 = (if artifactSize < chunkSize then 0 else artifactSize - chunkSize)"
    using sz c by (simp add: readOffset_def s0_def)
  obtain p k where pk:
    "ReadAt a (replicate (nat (readLength chunkSize s0)) NUL) (readOffset s0) = (p, k, Some e)"
    using r by blast
  have "readLoop a n chunkSize s0 [Size_call] =
      Some (Fail (Errorf (''error reading artifact: '' @ Error e)),
            [Size_call] @ [ReadAt_call (nat (readLength chunkSize s0)) (readOffset s0)])"
  proof (rule readLoop_read_fails [OF _ _ _ pk e])
    show "linesInContents s0 < n" using n by (simp add: s0_def)
    show "offset s0 \<noteq> 0" using ne by (simp add: s0_def)
    show "0 \<le> readLength chunkSize s0" using sz c by (simp add: len)
  qed
  then show ?thesis
    using sz c by (simp add: LastNLinesChunked_def s0_def [symmetric] len off)
qed

section \<open>Read errors in the loop\<close>

lemma quiet_snoc:
  "quiet a cs \<Longrightarrow> ReadAt a (replicate len NUL) off = (p, k, err) \<Longrightarrow>
     err = None \<or> err = Some EOF \<Longrightarrow> quiet a (cs @ [ReadAt_call len off])"
  by (simp add: quiet_def)

lemma quiet_contra:
  assumes "quiet a cs" and "ReadAt_call len off \<in> set cs"
    and "ReadAt a (replicate len NUL) off = (p, k, Some e)" and "e \<noteq> EOF"
  shows False
proof -
  from assms(1,2)
  have "case ReadAt a (replicate len NUL) off of (p, k, err) \<Rightarrow> err = None \<or> err = Some EOF"
    unfolding quiet_def list_all_iff by force
  with assms(3,4) show False by simp
qed

text \<open>
  Partial correctness of the loop, by fixpoint induction: started after quiet calls, if it
  ends, then every \<^verbatim>\<open>ReadAt\<close> call of its trace that returned an error other than \<open>EOF\<close>
  is the reason of a failure with that error.
\<close>

lemma readLoop_error_aborts:
  assumes "readLoop a n chunkSize s cs0 = Some y"
  shows "quiet a cs0 \<longrightarrow>
     (\<forall>len off p k e. ReadAt_call len off \<in> set (snd y) \<and>
          ReadAt a (replicate len NUL) off = (p, k, Some e) \<and> e \<noteq> EOF \<longrightarrow>
          fst y = Fail (Errorf (''error reading artifact: '' @ Error e)))"
proof (rule readLoop.raw_induct [where P = "\<lambda>a n chunkSize s cs0 y. quiet a cs0 \<longrightarrow>
     (\<forall>len off p k e. ReadAt_call len off \<in> set (snd y) \<and>
          ReadAt a (replicate len NUL) off = (p, k, Some e) \<and> e \<noteq> EOF \<longrightarrow>
          fst y = Fail (Errorf (''error reading artifact: '' @ Error e)))", OF _ assms],
    goal_cases)
  case (1 f a n chunkSize s cs0 y)
  show ?case
  proof (intro impI allI, elim conjE)
    fix len off p k e
    assume q: "quiet a cs0" and mem: "ReadAt_call len off \<in> set (snd y)"
      and rd: "ReadAt a (replicate len NUL) off = (p, k, Some e)" and ne: "e \<noteq> EOF"
    define offset1 where "offset1 = int64 (lastOffset s - lastRead s)"
    define toRead1 where
      "toRead1 = (if offset1 < 0 then int64 (int64 (offset1 + chunkSize) + 1) else toRead s)"
    define offset2 where "offset2 = (if offset1 < 0 then 0 else offset1)"
    obtain b k' err where r: "ReadAt a (replicate (nat toRead1) NUL) offset2 = (b, k', err)"
      by (cases "ReadAt a (replicate (nat toRead1) NUL) offset2") auto
    note body = 1(2) [unfolded Let_def, folded offset1_def, folded toRead1_def offset2_def,
        unfolded r, simplified]
    show "fst y = Fail (Errorf (''error reading artifact: '' @ Error e))"
    proof (cases "linesInContents s < n \<and> offset s \<noteq> 0")
      case False
      with body have "snd y = cs0" by auto
      with q mem rd ne show ?thesis by (auto dest: quiet_contra)
    next
      case entered: True
      show ?thesis
      proof (cases "toRead1 < 0")
        case True
        with body entered have "snd y = cs0" by auto
        with q mem rd ne show ?thesis by (auto dest: quiet_contra)
      next
        case nonneg: False
        show ?thesis
        proof (cases "err \<noteq> None \<and> err \<noteq> Some EOF")
          case True
          with body entered nonneg
          have y: "y = (Fail (Errorf (''error reading artifact: '' @ Error (the err))),
                        cs0 @ [ReadAt_call (nat toRead1) offset2])"
            by auto
          from mem y
          have "ReadAt_call len off \<in> set cs0 \<or> (len = nat toRead1 \<and> off = offset2)"
            by auto
          then show ?thesis
          proof
            assume "ReadAt_call len off \<in> set cs0"
            with q rd ne show ?thesis by (auto dest: quiet_contra)
          next
            assume "len = nat toRead1 \<and> off = offset2"
            with r rd have "err = Some e" by simp
            with y show ?thesis by simp
          qed
        next
          case False
          then have ok: "err = None \<or> err = Some EOF" by auto
          from body entered nonneg False
          have again: "f a n chunkSize
                \<lparr>toRead = toRead1, chunks = int64 (chunks s + 1),
                 contents = bytes_Trim b [NUL] @ contents s,
                 linesInContents =
                   int64 (linesInContents s + int64 (int (bytes_Count (bytes_Trim b [NUL]) LF))),
                 offset = offset2, lastOffset = offset2, lastRead = int64 k'\<rparr>
                (cs0 @ [ReadAt_call (nat toRead1) offset2]) = Some y"
            by auto
          from quiet_snoc [OF q r ok] 1(1) [OF again] mem rd ne show ?thesis by blast
        qed
      qed
    qed
  qed
qed

text \<open>The loop cannot tell \<open>EOF\<close> from \<^verbatim>\<open>nil\<close>: both directions, by fixpoint induction.\<close>

lemma ReadAt_ignoringEOF:
  "ReadAt a p off = (p', k, err) \<Longrightarrow>
   ReadAt (ignoringEOF a) p off = (p', k, if err = Some EOF then None else err)"
  by (simp add: ignoringEOF_def)

lemma readLoop_ignoringEOF_intro:
  assumes "readLoop a n chunkSize s cs = Some y"
  shows "readLoop (ignoringEOF a) n chunkSize s cs = Some y"
proof (rule readLoop.raw_induct [where P = "\<lambda>a n chunkSize s cs y.
     readLoop (ignoringEOF a) n chunkSize s cs = Some y", OF _ assms], goal_cases)
  case (1 f a n chunkSize s cs y)
  define offset1 where "offset1 = int64 (lastOffset s - lastRead s)"
  define toRead1 where
    "toRead1 = (if offset1 < 0 then int64 (int64 (offset1 + chunkSize) + 1) else toRead s)"
  define offset2 where "offset2 = (if offset1 < 0 then 0 else offset1)"
  obtain b k err where r: "ReadAt a (replicate (nat toRead1) NUL) offset2 = (b, k, err)"
    by (cases "ReadAt a (replicate (nat toRead1) NUL) offset2") auto
  note r' = ReadAt_ignoringEOF [OF r]
  note body = 1(2) [unfolded Let_def, folded offset1_def, folded toRead1_def offset2_def,
      unfolded r, simplified]
  show ?case
    apply (subst readLoop.simps)
    unfolding Let_def
    apply (fold offset1_def)
    apply (fold toRead1_def offset2_def)
    unfolding r'
    using body 1(1)
    apply (auto split: if_splits)
    done
qed

lemma readLoop_ignoringEOF_elim:
  assumes "readLoop a' n chunkSize s cs = Some y"
  shows "\<forall>a. a' = ignoringEOF a \<longrightarrow> readLoop a n chunkSize s cs = Some y"
proof (rule readLoop.raw_induct [where P = "\<lambda>a' n chunkSize s cs y.
     \<forall>a. a' = ignoringEOF a \<longrightarrow> readLoop a n chunkSize s cs = Some y", OF _ assms], goal_cases)
  case (1 f a' n chunkSize s cs y)
  show ?case
  proof (intro allI impI)
    fix a
    assume a': "a' = ignoringEOF a"
    define offset1 where "offset1 = int64 (lastOffset s - lastRead s)"
    define toRead1 where
      "toRead1 = (if offset1 < 0 then int64 (int64 (offset1 + chunkSize) + 1) else toRead s)"
    define offset2 where "offset2 = (if offset1 < 0 then 0 else offset1)"
    obtain b k err where r: "ReadAt a (replicate (nat toRead1) NUL) offset2 = (b, k, err)"
      by (cases "ReadAt a (replicate (nat toRead1) NUL) offset2") auto
    note r' = ReadAt_ignoringEOF [OF r]
    note body = 1(2) [unfolded a' Let_def, folded offset1_def, folded toRead1_def offset2_def,
        unfolded r', simplified]
    have IH: "readLoop a n chunkSize s' cs' = Some y"
      if "f (ignoringEOF a) n chunkSize s' cs' = Some y" for s' cs'
      using 1(1) a' that by blast
    show "readLoop a n chunkSize s cs = Some y"
      apply (subst readLoop.simps)
      unfolding Let_def
      apply (fold offset1_def)
      apply (fold toRead1_def offset2_def)
      unfolding r
      using body IH
      apply (auto split: if_splits)
      done
  qed
qed

lemma readLoop_ignoringEOF:
  "readLoop (ignoringEOF a) n chunkSize s cs = readLoop a n chunkSize s cs"
proof (cases "readLoop a n chunkSize s cs")
  case None
  show ?thesis
  proof (cases "readLoop (ignoringEOF a) n chunkSize s cs")
    case (Some y)
    with readLoop_ignoringEOF_elim [OF Some] None show ?thesis by simp
  qed (simp add: None)
next
  case (Some y)
  with readLoop_ignoringEOF_intro [OF Some] show ?thesis by simp
qed

section \<open>An artifact smaller than one chunk\<close>

lemma ScanLines_length: "length (ScanLines data) \<le> length data"
proof (induction data rule: ScanLines.induct)
  case (1 data)
  show ?case
  proof (cases "data = []")
    case True
    then show ?thesis by simp
  next
    case False
    define line where "line = takeWhile (\<lambda>b. b \<noteq> LF) data"
    define rest where "rest = dropWhile (\<lambda>b. b \<noteq> LF) data"
    show ?thesis
    proof (cases "MaxScanTokenSize \<le> length line \<or> rest = []")
      case True
      with False show ?thesis
        by (subst ScanLines.simps)
          (auto simp add: Let_def line_def [symmetric] rest_def [symmetric] Suc_leI)
    next
      case more: False
      then have "length (ScanLines (tl rest)) \<le> length (tl rest)"
        using "1.IH" [OF False line_def rest_def] by simp
      moreover have "length (tl rest) < length rest" using more by (cases rest) simp_all
      moreover have "length rest \<le> length data" unfolding rest_def by (rule length_dropWhile_le)
      ultimately have "Suc (length (ScanLines (tl rest))) \<le> length data" by linarith
      with False more show ?thesis
        by (subst ScanLines.simps) (simp add: Let_def line_def [symmetric] rest_def [symmetric])
    qed
  qed
qed

lemma bytes_Trim_length: "length (bytes_Trim s cutset) \<le> length s"
proof -
  have "length (dropWhile P (rev (dropWhile P s))) \<le> length s" for P :: "byte \<Rightarrow> bool"
    using length_dropWhile_le [of P "rev (dropWhile P s)"] length_dropWhile_le [of P s] by simp
  then show ?thesis by (simp add: bytes_Trim_def)
qed

lemma bytes_Trim_padding: "bytes_Trim (s @ [NUL]) [NUL] = bytes_Trim s [NUL]"
proof (cases "\<forall>b\<in>set s. b = NUL")
  case True
  then have all: "dropWhile (\<lambda>b. b = NUL) s = []"
    by (induction s) simp_all
  from True have padded: "dropWhile (\<lambda>b. b = NUL) (s @ [NUL]) = []"
    by (induction s) simp_all
  show ?thesis by (simp add: bytes_Trim_def all padded del: dropWhile_eq_Nil_conv)
next
  case False
  then have padded:
    "dropWhile (\<lambda>b. b = NUL) (s @ [NUL]) = dropWhile (\<lambda>b. b = NUL) s @ [NUL]"
    by (induction s) simp_all
  show ?thesis by (simp add: bytes_Trim_def padded)
qed

lemma drop_padding: "drop n (x # replicate n x) = [x]"
  by (induction n) simp_all

lemma contentArtifact_whole:
  "ReadAt (contentArtifact content) (replicate (Suc (length content)) NUL) 0 =
     (content @ [NUL], int (length content), Some EOF)"
  by (cases content) (simp_all add: contentArtifact_def Let_def drop_padding)

text \<open>
  An artifact smaller than the chunk is read whole by one \<^verbatim>\<open>ReadAt\<close> at offset 0, and
  the lines returned are the last \<open>n\<close> lines of its content without the NUL bytes at
  its two ends.
\<close>

lemma LastNLinesChunked_single_chunk:
  assumes small: "int (length content) < chunkSize" and c: "chunkSize < 2 ^ 63 - 1"
    and n: "1 \<le> n"
  shows "LastNLinesChunked (contentArtifact content) n chunkSize =
     Some (Return (let lines = ScanLines (bytes_Trim content [NUL])
                   in drop (length lines - nat n) lines),
           [Size_call, ReadAt_call (Suc (length content)) 0])"
proof -
  let ?a = "contentArtifact content"
  let ?size = "int (length content)"
  define s0 where "s0 = \<lparr>toRead = chunkSize + 1, chunks = 1, contents = [],
       linesInContents = 0, offset = ?size - chunkSize,
       lastOffset = ?size - chunkSize, lastRead = 0\<rparr>"
  define lines where "lines = ScanLines (bytes_Trim content [NUL])"
  have start: "contents s0 = []" by (simp add: s0_def)
  have sz: "Size ?a = Inr ?size" by (simp add: contentArtifact_def)
  have len: "readLength chunkSize s0 = ?size + 1"
    using small c by (simp add: readLength_def s0_def)
  have off: "readOffset s0 = 0"
    using small c by (simp add: readOffset_def s0_def)
  have rd: "ReadAt ?a (replicate (nat (readLength chunkSize s0)) NUL) (readOffset s0) =
      (content @ [NUL], ?size, Some EOF)"
    using contentArtifact_whole [of content] by (simp add: len off nat_add_distrib)
  have "readLoop ?a n chunkSize s0 [Size_call] =
      readLoop ?a n chunkSize
        \<lparr>toRead = readLength chunkSize s0, chunks = int64 (chunks s0 + 1),
         contents = bytes_Trim (content @ [NUL]) [NUL] @ contents s0,
         linesInContents = int64 (linesInContents s0 +
            int64 (int (bytes_Count (bytes_Trim (content @ [NUL]) [NUL]) LF))),
         offset = readOffset s0, lastOffset = readOffset s0, lastRead = int64 ?size\<rparr>
        ([Size_call] @ [ReadAt_call (nat (readLength chunkSize s0)) (readOffset s0)])"
  proof (rule readLoop_read_succeeds [OF _ _ _ rd])
    show "linesInContents s0 < n" using n by (simp add: s0_def)
    show "offset s0 \<noteq> 0" using small by (simp add: s0_def)
    show "0 \<le> readLength chunkSize s0" by (simp add: len)
  qed simp
  also have "\<dots> = Some (Return (bytes_Trim content [NUL]),
      [Size_call, ReadAt_call (Suc (length content)) 0])"
    by (subst readLoop_done) (simp_all add: off len bytes_Trim_padding start nat_add_distrib)
  finally have loop: "readLoop ?a n chunkSize s0 [Size_call] =
      Some (Return (bytes_Trim content [NUL]), [Size_call, ReadAt_call (Suc (length content)) 0])" .
  have "length lines \<le> length content"
    unfolding lines_def
    using ScanLines_length [of "bytes_Trim content [NUL]"] bytes_Trim_length [of content "[NUL]"]
    by simp
  with small c have l: "int64 (int (length lines)) = int (length lines)" by simp
  have i: "int64 (int (length lines) - n) = int (length lines) - n" if "n \<le> int (length lines)"
    using that n small c \<open>length lines \<le> length content\<close> by simp
  have "LastNLinesChunked ?a n chunkSize =
      Some (if int (length lines) < n then Return lines
            else Return (drop (nat (int (length lines) - n)) lines),
            [Size_call, ReadAt_call (Suc (length content)) 0])"
    using sz small c n loop
    by (simp add: LastNLinesChunked_def s0_def [symmetric] lines_def [symmetric] Let_def l i)
  also have "(if int (length lines) < n then Return lines
            else Return (drop (nat (int (length lines) - n)) lines)) =
      Return (drop (length lines - nat n) lines)"
    using n by (simp add: nat_diff_distrib')
  finally show ?thesis by (simp add: lines_def Let_def)
qed

section \<open>Properties of the registry\<close>

text \<open>
  C7. Registration leaves the registry as it was when it fails. Registering a lens under
  a name that is taken returns the error "viewer already registered with name ..." and
  the lens registered before is still what \<open>GetLens\<close> returns; registering a lens with
  an empty title returns an error and leaves the registry unchanged, and when the name
  was free \<open>GetLens\<close> still fails for it with \<open>ErrInvalidLensName\<close>; whenever
  \<open>RegisterLens\<close> returns an error, the state after the call is the state before it.
\<close>

theorem RegisterLens_failure_atomic:
  "(lensReg st (Name (Config lens)) = Some old \<longrightarrow>
      RegisterLens lens st =
        (Some (Errorf (''viewer already registered with name '' @ Name (Config lens))), st) \<and>
      GetLens (Name (Config lens)) (snd (RegisterLens lens st)) = Inr old) \<and>
   (Title (Config lens) = '''' \<longrightarrow>
      fst (RegisterLens lens st) \<noteq> None \<and> snd (RegisterLens lens st) = st) \<and>
   (Title (Config lens) = '''' \<and> lensReg st (Name (Config lens)) = None \<longrightarrow>
      RegisterLens lens st = (Some (New ''empty title field in view metadata''), st) \<and>
      GetLens (Name (Config lens)) (snd (RegisterLens lens st)) = Inl ErrInvalidLensName) \<and>
   (fst (RegisterLens lens st) \<noteq> None \<longrightarrow> snd (RegisterLens lens st) = st)"
  by (auto simp add: RegisterLens_def GetLens_def Let_def)

theorem RegisterLens_failure_atomic_witness:
  "fst (RegisterLens (exampleLens ''buildlog'' ''Build Log'') emptyRegistry) = None \<and>
   lensReg (snd (RegisterLens (exampleLens ''buildlog'' ''Build Log'') emptyRegistry))
       ''buildlog'' = Some (exampleLens ''buildlog'' ''Build Log'') \<and>
   RegisterLens (exampleLens ''buildlog'' ''Other'')
       (snd (RegisterLens (exampleLens ''buildlog'' ''Build Log'') emptyRegistry)) =
     (Some (Errorf ''viewer already registered with name buildlog''),
      snd (RegisterLens (exampleLens ''buildlog'' ''Build Log'') emptyRegistry)) \<and>
   GetLens ''buildlog''
       (snd (RegisterLens (exampleLens ''buildlog'' ''Other'')
          (snd (RegisterLens (exampleLens ''buildlog'' ''Build Log'') emptyRegistry)))) =
     Inr (exampleLens ''buildlog'' ''Build Log'') \<and>
   Title (Config (exampleLens ''junit'' '''')) = '''' \<and>
   lensReg emptyRegistry ''junit'' = None \<and>
   RegisterLens (exampleLens ''junit'' '''') emptyRegistry =
     (Some (New ''empty title field in view metadata''), emptyRegistry) \<and>
   fst (RegisterLens (exampleLens ''junit'' '''') emptyRegistry) \<noteq> None \<and>
   snd (RegisterLens (exampleLens ''junit'' '''') emptyRegistry) = emptyRegistry \<and>
   GetLens ''junit'' (snd (RegisterLens (exampleLens ''junit'' '''') emptyRegistry)) =
     Inl ErrInvalidLensName"
proof -
  let ?st1 = "snd (RegisterLens (exampleLens ''buildlog'' ''Build Log'') emptyRegistry)"
  have nm: "Name (Config (exampleLens name title)) = name" for name title
    by (simp add: exampleLens_def)
  have registered: "fst (RegisterLens (exampleLens ''buildlog'' ''Build Log'') emptyRegistry) = None"
    by (simp add: RegisterLens_def exampleLens_def emptyRegistry_def)
  have taken: "lensReg ?st1 ''buildlog'' = Some (exampleLens ''buildlog'' ''Build Log'')"
    by (simp add: RegisterLens_def exampleLens_def emptyRegistry_def)
  have untitled: "Title (Config (exampleLens ''junit'' '''')) = ''''"
    by (simp add: exampleLens_def)
  have free: "lensReg emptyRegistry ''junit'' = None"
    by (simp add: emptyRegistry_def)
  have str: "''viewer already registered with name '' @ ''buildlog'' =
      ''viewer already registered with name buildlog''"
    by simp
  have duplicate: "RegisterLens (exampleLens ''buildlog'' ''Other'') ?st1 =
        (Some (Errorf ''viewer already registered with name buildlog''), ?st1) \<and>
      GetLens ''buildlog'' (snd (RegisterLens (exampleLens ''buildlog'' ''Other'') ?st1)) =
        Inr (exampleLens ''buildlog'' ''Build Log'')"
    using RegisterLens_failure_atomic [of ?st1 "exampleLens ''buildlog'' ''Other''"
        "exampleLens ''buildlog'' ''Build Log''"] taken
    unfolding nm str by blast
  have empty_title: "RegisterLens (exampleLens ''junit'' '''') emptyRegistry =
        (Some (New ''empty title field in view metadata''), emptyRegistry) \<and>
      fst (RegisterLens (exampleLens ''junit'' '''') emptyRegistry) \<noteq> None \<and>
      snd (RegisterLens (exampleLens ''junit'' '''') emptyRegistry) = emptyRegistry \<and>
      GetLens ''junit'' (snd (RegisterLens (exampleLens ''junit'' '''') emptyRegistry)) =
        Inl ErrInvalidLensName"
    using RegisterLens_failure_atomic [of emptyRegistry "exampleLens ''junit'' ''''"
        "exampleLens ''junit'' ''''"] untitled free
    unfolding nm by blast
  from registered taken duplicate untitled free empty_title show ?thesis by blast
qed

text \<open>
  C8. For every lens and every registry, \<open>RegisterLens\<close> never returns the error
  "priority must be >=0": the field \<open>Priority\<close> is unsigned, so the check
  \<open>Priority < 0\<close> never holds and its branch is dead.
\<close>

theorem RegisterLens_never_negative_priority:
  "fst (RegisterLens lens st) \<noteq> Some (New ''priority must be >=0'')"
  by (simp add: RegisterLens_def Let_def)

text \<open>
  C9. Unregistering a name that is not registered leaves every entry of the map as it
  was (the call has no result and no error to return), and \<open>GetLens\<close> for that name
  still fails with \<open>ErrInvalidLensName\<close> afterwards.
\<close>

theorem UnregisterLens_unregistered:
  "lensReg st viewerName = None \<Longrightarrow>
     lensReg (UnregisterLens viewerName st) = lensReg st \<and>
     GetLens viewerName (UnregisterLens viewerName st) = Inl ErrInvalidLensName"
  by (auto simp add: UnregisterLens_def GetLens_def)

theorem UnregisterLens_unregistered_witness:
  "lensReg (snd (RegisterLens (exampleLens ''buildlog'' ''Build Log'') emptyRegistry))
       ''junit'' = None \<and>
   lensReg (UnregisterLens ''junit''
       (snd (RegisterLens (exampleLens ''buildlog'' ''Build Log'') emptyRegistry))) =
     lensReg (snd (RegisterLens (exampleLens ''buildlog'' ''Build Log'') emptyRegistry)) \<and>
   GetLens ''junit'' (UnregisterLens ''junit''
       (snd (RegisterLens (exampleLens ''buildlog'' ''Build Log'') emptyRegistry))) =
     Inl ErrInvalidLensName \<and>
   GetLens ''buildlog'' (UnregisterLens ''junit''
       (snd (RegisterLens (exampleLens ''buildlog'' ''Build Log'') emptyRegistry))) =
     Inr (exampleLens ''buildlog'' ''Build Log'')"
proof -
  let ?st1 = "snd (RegisterLens (exampleLens ''buildlog'' ''Build Log'') emptyRegistry)"
  have absent: "lensReg ?st1 ''junit'' = None"
    by (simp add: RegisterLens_def exampleLens_def emptyRegistry_def)
  have present: "lensReg ?st1 ''buildlog'' = Some (exampleLens ''buildlog'' ''Build Log'')"
    by (simp add: RegisterLens_def exampleLens_def emptyRegistry_def)
  from UnregisterLens_unregistered [OF absent] absent present show ?thesis
    by (simp add: GetLens_def)
qed

section \<open>Properties of tail-line extraction\<close>

text \<open>
  C1. The claim is that \<open>LastNLinesChunked\<close> returns the lines of a full scan of the
  content, cut to the last \<open>n\<close>, for every \<open>n \<ge> 1\<close> and every chunk size \<open>\<ge> 1\<close>.
  The code does not: on the content \<open>ab\<close> with \<open>n = 1\<close> and chunk size 1 the first read
  (2 bytes at offset 1) is cut short by the end of the data, the second (2 bytes at
  offset 0) reads the byte at offset 1 again, and the call returns the one line \<open>abb\<close>
  where the full scan gives \<open>ab\<close>.
\<close>

theorem LastNLinesChunked_differs_from_full_scan:
  "LastNLinesChunked (contentArtifact ''ab'') 1 1 =
     Some (Return [''abb''], [Size_call, ReadAt_call 2 1, ReadAt_call 2 0]) \<and>
   fullScanLastN ''ab'' 1 = [''ab'']"
  by (simp add: run_simps fullScanLastN_def)

text \<open>
  C2. The claim is that on the content \<open>a\<newline>b\<newline>c\<newline>d\<newline>\<close> the last 2 lines are \<open>c\<close> and
  \<open>d\<close> for every chunk size from 1 to 7. The code returns them for the chunk sizes 4 to
  7 only: with chunk size 1 it returns \<open>d\<close> and an empty line, with chunk size 2 it
  returns \<open>c\<close> and \<open>dd\<close>, with chunk size 3 an empty line and \<open>d\<close>.
\<close>

theorem LastNLinesChunked_four_lines:
  "LastNLinesChunked (contentArtifact ''a\<newline>b\<newline>c\<newline>d\<newline>'') 2 1 =
     Some (Return [''d'', ''''], [Size_call, ReadAt_call 2 7, ReadAt_call 2 6]) \<and>
   LastNLinesChunked (contentArtifact ''a\<newline>b\<newline>c\<newline>d\<newline>'') 2 2 =
     Some (Return [''c'', ''dd''], [Size_call, ReadAt_call 3 6, ReadAt_call 3 4]) \<and>
   LastNLinesChunked (contentArtifact ''a\<newline>b\<newline>c\<newline>d\<newline>'') 2 3 =
     Some (Return ['''', ''d''], [Size_call, ReadAt_call 4 5]) \<and>
   LastNLinesChunked (contentArtifact ''a\<newline>b\<newline>c\<newline>d\<newline>'') 2 4 =
     Some (Return [''c'', ''d''], [Size_call, ReadAt_call 5 4]) \<and>
   LastNLinesChunked (contentArtifact ''a\<newline>b\<newline>c\<newline>d\<newline>'') 2 5 =
     Some (Return [''c'', ''d''], [Size_call, ReadAt_call 6 3]) \<and>
   LastNLinesChunked (contentArtifact ''a\<newline>b\<newline>c\<newline>d\<newline>'') 2 6 =
     Some (Return [''c'', ''d''], [Size_call, ReadAt_call 7 2]) \<and>
   LastNLinesChunked (contentArtifact ''a\<newline>b\<newline>c\<newline>d\<newline>'') 2 7 =
     Some (Return [''c'', ''d''], [Size_call, ReadAt_call 8 1])"
  by (simp add: run_simps)

text \<open>
  C3. The claim is that an artifact with fewer than \<open>n\<close> lines comes back whole, line by
  line. The code does not return it so: of the one line \<open>abc\<close>, asked for 5 lines with
  chunk size 1, it returns \<open>abcc\<close>; and \<open>LastNLines\<close>, asked for the last 2 lines of an
  artifact of 601 bytes without a newline (601 is the chunk size \<open>300 * 2 + 1\<close>), reads
  nothing and returns no line at all.
\<close>

theorem LastNLines_fewer_lines_than_asked:
  "LastNLinesChunked (contentArtifact ''abc'') 5 1 =
     Some (Return [''abcc''], [Size_call, ReadAt_call 2 2, ReadAt_call 2 1, ReadAt_call 1 0]) \<and>
   fullScanLastN ''abc'' 5 = [''abc''] \<and>
   LastNLines (contentArtifact (replicate 601 (CHR ''x''))) 2 = Some (Return [], [Size_call])"
  by (simp add: run_simps fullScanLastN_def)

text \<open>
  C4 (amended). With \<open>n = 0\<close>, \<open>LastNLinesChunked\<close> (for every chunk size) and
  \<open>LastNLines\<close> make exactly one call, the \<^verbatim>\<open>Size()\<close> query, and no \<^verbatim>\<open>ReadAt\<close>. When the
  query succeeds they return the empty list of lines and no error; when it fails they
  return its error behind the words "error getting artifact size: ".
\<close>

theorem LastNLines_zero:
  "LastNLinesChunked a 0 chunkSize =
     Some (case Size a of
             Inl err \<Rightarrow> Fail (Errorf (''error getting artifact size: '' @ Error err))
           | Inr artifactSize \<Rightarrow> Return [],
           [Size_call]) \<and>
   LastNLines a 0 =
     Some (case Size a of
             Inl err \<Rightarrow> Fail (Errorf (''error getting artifact size: '' @ Error err))
           | Inr artifactSize \<Rightarrow> Return [],
           [Size_call])"
  by (simp add: LastNLines_def LastNLinesChunked_def readLoop_done split: sum.splits)

text \<open>The claim as it was stated promises the empty list with no error for every
  artifact; for one whose \<^verbatim>\<open>Size()\<close> fails the call returns an error.\<close>

theorem LastNLines_zero_size_failure:
  "LastNLines (failingArtifact (Inl (New ''connection reset'')) (New ''connection reset'')) 0 =
     Some (Fail (Errorf ''error getting artifact size: connection reset''), [Size_call]) \<and>
   LastNLines (failingArtifact (Inl (New ''connection reset'')) (New ''connection reset'')) 0 \<noteq>
     Some (Return [], [Size_call])"
  by (simp add: run_simps)

text \<open>
  C5. Errors of the calls on the artifact. (1) When \<^verbatim>\<open>Size()\<close> fails, the operation
  returns its error behind "error getting artifact size: " and makes no other call.
  (2) In an iteration of the loop, a \<^verbatim>\<open>ReadAt\<close> that returns \<open>EOF\<close> is treated as one that
  returns \<^verbatim>\<open>nil\<close>: the bytes of its buffer, trimmed, are put before the contents and the
  loop goes on from the next state; any other error ends the loop at once with that
  error behind "error reading artifact: ". (3) The whole operation cannot tell \<open>EOF\<close>
  from \<^verbatim>\<open>nil\<close>: on the artifact that returns \<^verbatim>\<open>nil\<close> wherever \<open>a\<close> returns \<open>EOF\<close> it makes
  the same calls and returns the same result. (4) When the operation ends and one of the
  \<^verbatim>\<open>ReadAt\<close> calls it made returned an error other than \<open>EOF\<close>, its result is that error
  behind "error reading artifact: ". (5) An error the loop ends with is the result of
  the operation.
\<close>

theorem LastNLinesChunked_read_errors:
  "(Size a = Inl e \<longrightarrow>
      LastNLinesChunked a n chunkSize =
        Some (Fail (Errorf (''error getting artifact size: '' @ Error e)), [Size_call])) \<and>
   (linesInContents s < n \<and> offset s \<noteq> 0 \<and> 0 \<le> readLength chunkSize s \<and>
    ReadAt a (replicate (nat (readLength chunkSize s)) NUL) (readOffset s) = (p, k, err) \<longrightarrow>
      readLoop a n chunkSize s cs =
        (if err = None \<or> err = Some EOF
         then readLoop a n chunkSize
                \<lparr>toRead = readLength chunkSize s, chunks = int64 (chunks s + 1),
                 contents = bytes_Trim p [NUL] @ contents s,
                 linesInContents =
                   int64 (linesInContents s +
                          int64 (int (bytes_Count (bytes_Trim p [NUL]) LF))),
                 offset = readOffset s, lastOffset = readOffset s, lastRead = int64 k\<rparr>
                (cs @ [ReadAt_call (nat (readLength chunkSize s)) (readOffset s)])
         else Some (Fail (Errorf (''error reading artifact: '' @ Error (the err))),
                    cs @ [ReadAt_call (nat (readLength chunkSize s)) (readOffset s)]))) \<and>
   LastNLinesChunked (ignoringEOF a) n chunkSize = LastNLinesChunked a n chunkSize \<and>
   (LastNLinesChunked a n chunkSize = Some (r, trace) \<and> ReadAt_call len off \<in> set trace \<and>
    ReadAt a (replicate len NUL) off = (p', k', Some e') \<and> e' \<noteq> EOF \<longrightarrow>
      r = Fail (Errorf (''error reading artifact: '' @ Error e'))) \<and>
   (Size a = Inr artifactSize \<and>
    readLoop a n chunkSize
      \<lparr>toRead = int64 (chunkSize + 1), chunks = 1, contents = [], linesInContents = 0,
       offset = int64 (artifactSize - int64 (1 * chunkSize)),
       lastOffset = int64 (artifactSize - int64 (1 * chunkSize)), lastRead = 0\<rparr>
      [Size_call] = Some (Fail e'', trace') \<longrightarrow>
      LastNLinesChunked a n chunkSize = Some (Fail e'', trace'))"
proof (intro conjI impI)
  assume "Size a = Inl e"
  then show "LastNLinesChunked a n chunkSize =
      Some (Fail (Errorf (''error getting artifact size: '' @ Error e)), [Size_call])"
    by (simp add: LastNLinesChunked_def)
next
  let ?next = "\<lparr>toRead = readLength chunkSize s, chunks = int64 (chunks s + 1),
       contents = bytes_Trim p [NUL] @ contents s,
       linesInContents =
         int64 (linesInContents s + int64 (int (bytes_Count (bytes_Trim p [NUL]) LF))),
       offset = readOffset s, lastOffset = readOffset s, lastRead = int64 k\<rparr>"
  let ?cs = "cs @ [ReadAt_call (nat (readLength chunkSize s)) (readOffset s)]"
  assume h: "linesInContents s < n \<and> offset s \<noteq> 0 \<and> 0 \<le> readLength chunkSize s \<and>
    ReadAt a (replicate (nat (readLength chunkSize s)) NUL) (readOffset s) = (p, k, err)"
  show "readLoop a n chunkSize s cs =
      (if err = None \<or> err = Some EOF then readLoop a n chunkSize ?next ?cs
       else Some (Fail (Errorf (''error reading artifact: '' @ Error (the err))), ?cs))"
  proof (cases "err = None \<or> err = Some EOF")
    case True
    with h readLoop_read_succeeds [of s n chunkSize a p k err cs] show ?thesis by simp
  next
    case False
    then obtain e0 where "err = Some e0" and "e0 \<noteq> EOF" by auto
    with h readLoop_read_fails [of s n chunkSize a p k e0 cs] show ?thesis by simp
  qed
next
  have "Size (ignoringEOF a) = Size a" by (simp add: ignoringEOF_def)
  then show "LastNLinesChunked (ignoringEOF a) n chunkSize = LastNLinesChunked a n chunkSize"
    unfolding LastNLinesChunked_def readLoop_ignoringEOF by simp
next
  assume h: "LastNLinesChunked a n chunkSize = Some (r, trace) \<and>
    ReadAt_call len off \<in> set trace \<and>
    ReadAt a (replicate len NUL) off = (p', k', Some e') \<and> e' \<noteq> EOF"
  show "r = Fail (Errorf (''error reading artifact: '' @ Error e'))"
  proof (cases "Size a")
    case (Inl err)
    with h show ?thesis by (auto simp add: LastNLinesChunked_def)
  next
    case (Inr artifactSize)
    from LastNLinesChunked_loop_result [OF _ Inr] h obtain r0 where
      loop: "readLoop a n chunkSize
            \<lparr>toRead = int64 (chunkSize + 1), chunks = 1, contents = [],
             linesInContents = 0, offset = int64 (artifactSize - int64 chunkSize),
             lastOffset = int64 (artifactSize - int64 chunkSize), lastRead = 0\<rparr>
            [Size_call] = Some (r0, trace)"
      and r: "\<forall>err. r0 = Fail err \<longrightarrow> r = Fail err"
      by blast
    have "quiet a [Size_call]" by (simp add: quiet_def)
    with readLoop_error_aborts [OF loop] h
    have "r0 = Fail (Errorf (''error reading artifact: '' @ Error e'))"
      by fastforce
    with r show ?thesis by blast
  qed
next
  assume "Size a = Inr artifactSize \<and>
    readLoop a n chunkSize
      \<lparr>toRead = int64 (chunkSize + 1), chunks = 1, contents = [], linesInContents = 0,
       offset = int64 (artifactSize - int64 (1 * chunkSize)),
       lastOffset = int64 (artifactSize - int64 (1 * chunkSize)), lastRead = 0\<rparr>
      [Size_call] = Some (Fail e'', trace')"
  then show "LastNLinesChunked a n chunkSize = Some (Fail e'', trace')"
    by (simp add: LastNLinesChunked_def)
qed

theorem LastNLinesChunked_read_errors_witness:
  "Size (failingArtifact (Inl (New ''connection reset'')) (New ''connection reset'')) =
     Inl (New ''connection reset'') \<and>
   LastNLinesChunked (failingArtifact (Inl (New ''connection reset'')) (New ''connection reset''))
       1 1 =
     Some (Fail (Errorf ''error getting artifact size: connection reset''), [Size_call]) \<and>
   ReadAt (contentArtifact ''ab'') (replicate 2 NUL) 1 = ([CHR ''b'', NUL], 1, Some EOF) \<and>
   readLoop (contentArtifact ''ab'') 1 1
       \<lparr>toRead = 2, chunks = 1, contents = [], linesInContents = 0, offset = 1,
        lastOffset = 1, lastRead = 0\<rparr>
       [Size_call] =
     readLoop (contentArtifact ''ab'') 1 1
       \<lparr>toRead = 2, chunks = 2, contents = ''b'', linesInContents = 0, offset = 1,
        lastOffset = 1, lastRead = 1\<rparr>
       [Size_call, ReadAt_call 2 1] \<and>
   LastNLinesChunked (ignoringEOF (contentArtifact ''ab'')) 1 1 =
     Some (Return [''abb''], [Size_call, ReadAt_call 2 1, ReadAt_call 2 0]) \<and>
   Size (failingArtifact (Inr 8) (New ''connection reset'')) = Inr 8 \<and>
   ReadAt (failingArtifact (Inr 8) (New ''connection reset'')) (replicate 4 NUL) 5 =
     (replicate 4 NUL, 0, Some (New ''connection reset'')) \<and>
   readLoop (failingArtifact (Inr 8) (New ''connection reset'')) 2 3
       \<lparr>toRead = 4, chunks = 1, contents = [], linesInContents = 0, offset = 5,
        lastOffset = 5, lastRead = 0\<rparr>
       [Size_call] =
     Some (Fail (Errorf ''error reading artifact: connection reset''),
           [Size_call, ReadAt_call 4 5]) \<and>
   LastNLinesChunked (failingArtifact (Inr 8) (New ''connection reset'')) 2 3 =
     Some (Fail (Errorf ''error reading artifact: connection reset''),
           [Size_call, ReadAt_call 4 5])"
proof -
  let ?offline = "failingArtifact (Inl (New ''connection reset'')) (New ''connection reset'')"
  let ?broken = "failingArtifact (Inr 8) (New ''connection reset'')"
  let ?ab = "contentArtifact ''ab''"
  let ?s = "\<lparr>toRead = 2, chunks = 1, contents = [], linesInContents = 0, offset = 1,
        lastOffset = 1, lastRead = 0\<rparr>"
  let ?t = "\<lparr>toRead = 4, chunks = 1, contents = [], linesInContents = 0, offset = 5,
        lastOffset = 5, lastRead = 0\<rparr>"
  let ?failure = "Errorf ''error reading artifact: connection reset''"
  have size_fails: "Size ?offline = Inl (New ''connection reset'')"
    by (simp add: failingArtifact_def)
  have size_known: "Size ?broken = Inr 8"
    by (simp add: failingArtifact_def)
  have len: "readLength 1 ?s = 2" and off: "readOffset ?s = 1"
    and len': "readLength 3 ?t = 4" and off': "readOffset ?t = 5"
    by (simp_all add: readLength_def readOffset_def)
  have short_read: "ReadAt ?ab (replicate 2 NUL) 1 = ([CHR ''b'', NUL], 1, Some EOF)"
    by (simp add: contentArtifact_def)
  have failed_read: "ReadAt ?broken (replicate 4 NUL) 5 =
      (replicate 4 NUL, 0, Some (New ''connection reset''))"
    by (simp add: failingArtifact_def)
  have entered: "linesInContents ?s < 1 \<and> offset ?s \<noteq> 0 \<and> 0 \<le> readLength 1 ?s \<and>
      ReadAt ?ab (replicate (nat (readLength 1 ?s)) NUL) (readOffset ?s) =
        ([CHR ''b'', NUL], 1, Some EOF)"
    by (simp add: len off short_read)
  have entered': "linesInContents ?t < 2 \<and> offset ?t \<noteq> 0 \<and> 0 \<le> readLength 3 ?t \<and>
      ReadAt ?broken (replicate (nat (readLength 3 ?t)) NUL) (readOffset ?t) =
        (replicate 4 NUL, 0, Some (New ''connection reset''))"
    by (simp add: len' off' failed_read)
  have run_ab: "LastNLinesChunked ?ab 1 1 =
      Some (Return [''abb''], [Size_call, ReadAt_call 2 1, ReadAt_call 2 0])"
    by (simp add: run_simps)
  note at_offline = LastNLinesChunked_read_errors [of ?offline "New ''connection reset''" 1 1]
  note at_ab = LastNLinesChunked_read_errors
    [of ?ab _ 1 1 ?s "[CHR ''b'', NUL]" 1 "Some EOF" "[Size_call]"]
  note at_broken = LastNLinesChunked_read_errors
    [of ?broken _ 2 3 ?t "replicate 4 NUL" 0 "Some (New ''connection reset'')" "[Size_call]"
      "Fail ?failure" "[Size_call, ReadAt_call 4 5]" 4 5 "replicate 4 NUL" 0
      "New ''connection reset''" 8 ?failure "[Size_call, ReadAt_call 4 5]"]
  have one: "LastNLinesChunked ?offline 1 1 =
      Some (Fail (Errorf ''error getting artifact size: connection reset''), [Size_call])"
    using at_offline size_fails by simp
  have two: "readLoop ?ab 1 1 ?s [Size_call] =
      readLoop ?ab 1 1
        \<lparr>toRead = 2, chunks = 2, contents = ''b'', linesInContents = 0, offset = 1,
         lastOffset = 1, lastRead = 1\<rparr>
        [Size_call, ReadAt_call 2 1]"
    using at_ab entered by (simp add: len off bytes_Trim_def bytes_Count_def)
  have three: "LastNLinesChunked (ignoringEOF ?ab) 1 1 =
      Some (Return [''abb''], [Size_call, ReadAt_call 2 1, ReadAt_call 2 0])"
    using at_ab run_ab by simp
  have four: "readLoop ?broken 2 3 ?t [Size_call] =
      Some (Fail ?failure, [Size_call, ReadAt_call 4 5])"
    using at_broken entered' by (simp add: len' off')
  have five: "LastNLinesChunked ?broken 2 3 = Some (Fail ?failure, [Size_call, ReadAt_call 4 5])"
    using at_broken size_known four by simp
  from size_fails one short_read two three size_known failed_read four five
  show ?thesis by blast
qed

text \<open>
  C6 (amended). Let every \<^verbatim>\<open>ReadAt\<close> of the artifact fail with \<open>ErrGzipOffsetRead\<close>, let
  its \<^verbatim>\<open>Size()\<close> succeed with a size at least 0 and below \<open>2 ^ 63 - 1\<close>, and let
  \<open>n \<ge> 1\<close>. Then \<open>LastNLinesChunked\<close>, for a chunk size at least 1, below \<open>2 ^ 63 - 1\<close>
  and other than the size, returns the error
  "error reading artifact: offset read on gzipped files unsupported" after exactly two
  calls: the \<^verbatim>\<open>Size()\<close> query and one \<^verbatim>\<open>ReadAt\<close>. So does \<open>LastNLines\<close>, whose chunk
  size is \<open>300 * n + 1\<close>, when that is below \<open>2 ^ 63 - 1\<close> and is not the size.
\<close>

theorem LastNLinesChunked_unsupported_read:
  assumes gz: "\<forall>p off. snd (snd (ReadAt a p off)) = Some ErrGzipOffsetRead"
      and sz: "Size a = Inr artifactSize" "0 \<le> artifactSize" "artifactSize < 2 ^ 63 - 1"
      and n: "1 \<le> n"
  shows "(1 \<le> chunkSize \<and> chunkSize < 2 ^ 63 - 1 \<and> artifactSize \<noteq> chunkSize \<longrightarrow>
      LastNLinesChunked a n chunkSize =
        Some (Fail (Errorf ''error reading artifact: offset read on gzipped files unsupported''),
              [Size_call,
               if artifactSize < chunkSize then ReadAt_call (nat (artifactSize + 1)) 0
               else ReadAt_call (nat (chunkSize + 1)) (artifactSize - chunkSize)])) \<and>
    (300 * n + 1 < 2 ^ 63 - 1 \<and> artifactSize \<noteq> 300 * n + 1 \<longrightarrow>
      LastNLines a n =
        Some (Fail (Errorf ''error reading artifact: offset read on gzipped files unsupported''),
              [Size_call,
               if artifactSize < 300 * n + 1 then ReadAt_call (nat (artifactSize + 1)) 0
               else ReadAt_call (nat (300 * n + 2)) (artifactSize - (300 * n + 1))]))"
proof (intro conjI impI)
  assume "1 \<le> chunkSize \<and> chunkSize < 2 ^ 63 - 1 \<and> artifactSize \<noteq> chunkSize"
  with LastNLinesChunked_first_read_fails [OF gz _ sz n, of chunkSize]
  show "LastNLinesChunked a n chunkSize =
        Some (Fail (Errorf ''error reading artifact: offset read on gzipped files unsupported''),
              [Size_call,
               if artifactSize < chunkSize then ReadAt_call (nat (artifactSize + 1)) 0
               else ReadAt_call (nat (chunkSize + 1)) (artifactSize - chunkSize)])"
    by simp
next
  assume h: "300 * n + 1 < 2 ^ 63 - 1 \<and> artifactSize \<noteq> 300 * n + 1"
  with n have chunk: "int64 (int64 (300 * n) + 1) = 300 * n + 1" by simp
  from h n LastNLinesChunked_first_read_fails [OF gz _ sz n, of "300 * n + 1"]
  show "LastNLines a n =
        Some (Fail (Errorf ''error reading artifact: offset read on gzipped files unsupported''),
              [Size_call,
               if artifactSize < 300 * n + 1 then ReadAt_call (nat (artifactSize + 1)) 0
               else ReadAt_call (nat (300 * n + 2)) (artifactSize - (300 * n + 1))])"
    by (simp add: LastNLines_def chunk) (simp add: add.commute)
qed

theorem LastNLinesChunked_unsupported_read_witness:
  "(\<forall>p off. snd (snd (ReadAt (failingArtifact (Inr 8) ErrGzipOffsetRead) p off)) =
      Some ErrGzipOffsetRead) \<and>
   Size (failingArtifact (Inr 8) ErrGzipOffsetRead) = Inr 8 \<and>
   LastNLinesChunked (failingArtifact (Inr 8) ErrGzipOffsetRead) 2 3 =
     Some (Fail (Errorf ''error reading artifact: offset read on gzipped files unsupported''),
           [Size_call, ReadAt_call 4 5]) \<and>
   LastNLines (failingArtifact (Inr 8) ErrGzipOffsetRead) 2 =
     Some (Fail (Errorf ''error reading artifact: offset read on gzipped files unsupported''),
           [Size_call, ReadAt_call 9 0])"
proof -
  have gz: "\<forall>p off. snd (snd (ReadAt (failingArtifact (Inr 8) ErrGzipOffsetRead) p off)) =
      Some ErrGzipOffsetRead"
    by (simp add: failingArtifact_def)
  have sz: "Size (failingArtifact (Inr 8) ErrGzipOffsetRead) = Inr 8"
    by (simp add: failingArtifact_def)
  from LastNLinesChunked_unsupported_read [OF gz sz, of 2 3] gz sz show ?thesis by simp
qed

text \<open>The claim as it was stated covers every artifact whose \<^verbatim>\<open>ReadAt\<close> always fails so.
  When the \<^verbatim>\<open>Size()\<close> query of such an artifact fails, the error returned is that of
  the query and not the one of \<^verbatim>\<open>ReadAt\<close>; and when its size is the chunk size (301 for
  \<open>LastNLines\<close> with \<open>n = 1\<close>), no error is returned at all.\<close>

theorem LastNLines_unsupported_read_not_reported:
  "LastNLines (failingArtifact (Inl (New ''connection reset'')) ErrGzipOffsetRead) 1 =
     Some (Fail (Errorf ''error getting artifact size: connection reset''), [Size_call]) \<and>
   LastNLines (failingArtifact (Inr 301) ErrGzipOffsetRead) 1 = Some (Return [], [Size_call])"
  by (simp add: run_simps)

text \<open>
  C10. When \<^verbatim>\<open>Size()\<close> returns exactly the chunk size and \<open>n \<ge> 1\<close>, \<open>LastNLinesChunked\<close>
  makes no \<^verbatim>\<open>ReadAt\<close> call and returns the empty list of lines with no error: the first
  offset is 0, so the loop is not entered, whatever the artifact holds.
\<close>

theorem LastNLinesChunked_size_equals_chunk:
  "Size a = Inr chunkSize \<Longrightarrow> 1 \<le> n \<Longrightarrow>
     LastNLinesChunked a n chunkSize = Some (Return [], [Size_call])"
  by (rule LastNLinesChunked_no_read [where artifactSize = chunkSize])
    (simp_all add: int64_self)

theorem LastNLinesChunked_size_equals_chunk_witness:
  "Size (contentArtifact ''a\<newline>b\<newline>c\<newline>d\<newline>'') = Inr 8 \<and> (1::int) \<le> 2 \<and>
   LastNLinesChunked (contentArtifact ''a\<newline>b\<newline>c\<newline>d\<newline>'') 2 8 =
     Some (Return [], [Size_call])"
proof -
  have sz: "Size (contentArtifact ''a\<newline>b\<newline>c\<newline>d\<newline>'') = Inr 8"
    by (simp add: contentArtifact_def)
  from LastNLinesChunked_size_equals_chunk [OF sz, of 2] sz show ?thesis by simp
qed

end
